theory Spec2Isabelle
  imports Complex_Main
begin

section \<open>Moving-average crossover backtester (backtester.py)\<close>

text \<open>
  Numbers. The program computes with IEEE doubles (Python floats and numpy float64).
  The embedding computes with the real numbers they stand for, so rounding is not
  modelled. A value that is not a number is modelled where the program can meet one:
  a NaN cell of a data-frame column is \<open>None\<close>, and a division by zero, which numpy
  answers with an infinity or a NaN instead of raising, leaves the real numbers and is
  the result \<open>NonFinite\<close>.

  Dates. The data-frame index is a calendar date; it is only copied, never computed
  with, and is modelled by its ordinal.
\<close>

type_synonym date = nat

datatype py_error = IndexError | NonFinite

subsection \<open>Data frames\<close>

text \<open>
  A data frame is the list of its rows, oldest first. \<open>fetch_data\<close> delivers the column
  \<open>Close\<close> under the index \<open>Date\<close>; \<open>calculate_moving_averages\<close> adds the columns
  \<open>SMA_Short\<close> and \<open>SMA_Long\<close>; \<open>generate_signals\<close> adds \<open>Signal\<close> and \<open>Position\<close>.
\<close>

record price_point =
  Date :: date
  Close :: real

record indicator_row = price_point +
  SMA_Short :: "real option"
  SMA_Long :: "real option"

record signal_row = indicator_row +
  Signal :: int
  Position :: "int option"

subsection \<open>calculate_moving_averages\<close>

text \<open>
  \<open>Series.rolling(window=w).mean()\<close>: the cell at index \<open>i\<close> is the mean of the \<open>w\<close>
  cells ending at \<open>i\<close>, and NaN while fewer than \<open>w\<close> cells are available
  (\<open>min_periods\<close> defaults to the window). A window of 0 holds no cell and gives NaN.
  pandas rejects a negative window, which is not a value of the type used here.
\<close>

definition rolling_mean :: "nat \<Rightarrow> real list \<Rightarrow> real option list" where
  "rolling_mean w xs =
     map (\<lambda>i. if w = 0 \<or> Suc i < w then None
               else Some (sum_list (take w (drop (Suc i - w) xs)) / real w))
         [0..<length xs]"

definition calculate_moving_averages ::
  "price_point list \<Rightarrow> nat \<Rightarrow> nat \<Rightarrow> indicator_row list" where
  "calculate_moving_averages df short_window long_window =
     map (\<lambda>(p, s, l). price_point.extend p
             (indicator_row.fields s l))
         (zip df (zip (rolling_mean short_window (map Close df))
                      (rolling_mean long_window (map Close df))))"

subsection \<open>generate_signals\<close>

text \<open>
  A comparison with a NaN operand is false, so a row with an undefined average passes
  neither of the two masked assignments and keeps the initial \<open>Signal\<close> 0.
\<close>

definition gt_mask :: "real option \<Rightarrow> real option \<Rightarrow> bool" where
  "gt_mask a b = (case (a, b) of (Some x, Some y) \<Rightarrow> x > y | _ \<Rightarrow> False)"

definition le_mask :: "real option \<Rightarrow> real option \<Rightarrow> bool" where
  "le_mask a b = (case (a, b) of (Some x, Some y) \<Rightarrow> x \<le> y | _ \<Rightarrow> False)"

definition signal_of :: "real option \<Rightarrow> real option \<Rightarrow> int" where
  "signal_of a b =
     (let s0 = 0;
          s1 = (if gt_mask a b then 1 else s0);
          s2 = (if le_mask a b then - 1 else s1)
      in s2)"

text \<open>\<open>Series.diff()\<close>: NaN in the first cell, then the difference to the cell before.\<close>

fun diff :: "int list \<Rightarrow> int option list" where
  "diff [] = []"
| "diff (x # xs) = None # map (\<lambda>(a, b). Some (b - a)) (zip (x # xs) xs)"

definition generate_signals :: "indicator_row list \<Rightarrow> signal_row list" where
  "generate_signals df =
     (let sig = map (\<lambda>r. signal_of (SMA_Short r) (SMA_Long r)) df
      in map (\<lambda>(r, s, p). indicator_row.extend r (signal_row.fields s p))
             (zip df (zip sig (diff sig))))"

subsection \<open>simulate_trades\<close>

text \<open>
  \<open>DataFrame.dropna()\<close> keeps the rows without a NaN cell. Of the columns modelled,
  the two averages and \<open>Position\<close> can be NaN.
\<close>

definition notna :: "signal_row \<Rightarrow> bool" where
  "notna r = (SMA_Short r \<noteq> None \<and> SMA_Long r \<noteq> None \<and> Position r \<noteq> None)"

definition dropna :: "signal_row list \<Rightarrow> signal_row list" where
  "dropna df = filter notna df"

text \<open>
  A trade is a dictionary tagged by its key \<open>Type\<close>:
  \<open>BUY Date Price Shares\<close> and \<open>SELL Date Price Shares Profit Profit_Pct\<close>.
\<close>

datatype trade = BUY date real real | SELL date real real real real

text \<open>
  The local variables of \<open>simulate_trades\<close>. \<open>shares\<close> is a float in the program
  (the result of a floor division of floats), so it is a real here and that it is a
  whole number is a property to prove. \<open>entry_date\<close> is \<open>None\<close> as in the program.
\<close>

record sim_state =
  capital :: real
  shares :: real
  trades :: "trade list"
  portfolio_values :: "(date \<times> real) list"
  in_position :: bool
  entry_price :: real
  entry_date :: "date option"

definition init_state :: "real \<Rightarrow> sim_state" where
  "init_state initial_capital =
     \<lparr>capital = initial_capital, shares = 0, trades = [], portfolio_values = [],
      in_position = False, entry_price = 0, entry_date = None\<rparr>"

text \<open>
  One pass of the loop body. The snapshot is appended first, from the state the day
  starts with. The BUY branch assigns \<open>shares\<close> before it tests \<open>shares > 0\<close>, as the
  program does. The two divisions (\<open>capital // current_price\<close> and the one by
  \<open>entry_price\<close>) are by zero exactly where the model answers \<open>NonFinite\<close>.
\<close>

definition step :: "sim_state \<Rightarrow> signal_row \<Rightarrow> py_error + sim_state" where
  "step s row =
     (let current_price = Close row;
          portfolio_value = capital s + shares s * current_price;
          s1 = s\<lparr>portfolio_values := portfolio_values s @ [(Date row, portfolio_value)]\<rparr>
      in if Position row = Some 2 \<and> \<not> in_position s1 then
           (if current_price = 0 then Inl NonFinite
            else
              let s2 = s1\<lparr>shares := of_int \<lfloor>capital s1 / current_price\<rfloor>\<rparr>
              in if shares s2 > 0 then
                   (let cost = shares s2 * current_price
                    in Inr (s2\<lparr>capital := capital s2 - cost,
                               in_position := True,
                               entry_price := current_price,
                               entry_date := Some (Date row),
                               trades := trades s2 @ [BUY (Date row) current_price (shares s2)]\<rparr>))
                 else Inr s2)
         else if Position row = Some (- 2) \<and> in_position s1 then
           (if entry_price s1 = 0 then Inl NonFinite
            else
              let revenue = shares s1 * current_price;
                  profit = (current_price - entry_price s1) * shares s1;
                  profit_pct = (current_price - entry_price s1) / entry_price s1 * 100
              in Inr (s1\<lparr>capital := capital s1 + revenue,
                         trades := trades s1 @
                           [SELL (Date row) current_price (shares s1) profit profit_pct],
                         shares := 0,
                         in_position := False,
                         entry_price := 0,
                         entry_date := None\<rparr>))
         else Inr s1)"

fun run_loop :: "sim_state \<Rightarrow> signal_row list \<Rightarrow> py_error + sim_state" where
  "run_loop s [] = Inr s"
| "run_loop s (row # rows) =
     (case step s row of Inl e \<Rightarrow> Inl e | Inr s' \<Rightarrow> run_loop s' rows)"

text \<open>
  The dictionary \<open>simulate_trades\<close> returns. The keys \<open>trades\<close> and \<open>in_position\<close>
  carry the prefix \<open>res_\<close> here, since the state already has fields of these names.
\<close>

record results =
  res_trades :: "trade list"
  portfolio_df :: "(date \<times> real) list"
  final_value :: real
  initial_capital :: real
  shares_held :: real
  cash :: real
  res_in_position :: bool
  unrealized_profit :: real
  unrealized_pct :: real

text \<open>\<open>df.iloc[-1]\<close> raises IndexError on a frame without rows.\<close>

definition simulate_trades :: "signal_row list \<Rightarrow> real \<Rightarrow> py_error + results" where
  "simulate_trades df0 initial_cap =
     (let df = dropna df0
      in case run_loop (init_state initial_cap) df of
           Inl e \<Rightarrow> Inl e
         | Inr s \<Rightarrow>
             (if df = [] then Inl IndexError
              else
                let final_price = Close (last df);
                    final_val = capital s + shares s * final_price
                in if in_position s then
                     (if entry_price s = 0 then Inl NonFinite
                      else Inr \<lparr>res_trades = trades s,
                                portfolio_df = portfolio_values s,
                                final_value = final_val,
                                initial_capital = initial_cap,
                                shares_held = shares s,
                                cash = capital s,
                                res_in_position = in_position s,
                                unrealized_profit = (final_price - entry_price s) * shares s,
                                unrealized_pct =
                                  (final_price - entry_price s) / entry_price s * 100\<rparr>)
                   else Inr \<lparr>res_trades = trades s,
                             portfolio_df = portfolio_values s,
                             final_value = final_val,
                             initial_capital = initial_cap,
                             shares_held = shares s,
                             cash = capital s,
                             res_in_position = in_position s,
                             unrealized_profit = 0,
                             unrealized_pct = 0\<rparr>))"

subsection \<open>calculate_metrics\<close>

text \<open>
  The metrics are computed one by one and a division by zero in one of them does not
  stop the others, so a metric that can be an infinity or a NaN is an option here.
\<close>

definition fdiv :: "real \<Rightarrow> real \<Rightarrow> real option" where
  "fdiv a b = (if b = 0 then None else Some (a / b))"

fun is_SELL :: "trade \<Rightarrow> bool" where
  "is_SELL (SELL d p n pr pp) = True"
| "is_SELL (BUY d p n) = False"

text \<open>\<open>t["Profit"] > 0\<close>; it is evaluated on SELL trades only, a BUY has no such key.\<close>

fun profit_positive :: "trade \<Rightarrow> bool" where
  "profit_positive (SELL d p n pr pp) = (pr > 0)"
| "profit_positive (BUY d p n) = False"

text \<open>\<open>Series.cummax()\<close>: the running maximum.\<close>

fun cummax_from :: "real \<Rightarrow> real list \<Rightarrow> real list" where
  "cummax_from m [] = []"
| "cummax_from m (x # xs) = max m x # cummax_from (max m x) xs"

fun cummax :: "real list \<Rightarrow> real list" where
  "cummax [] = []"
| "cummax (x # xs) = x # cummax_from x xs"

text \<open>
  \<open>Series.min()\<close> of the drawdown column. Where a cell is not a real number the model
  gives no number for the minimum.
\<close>

fun series_min :: "real option list \<Rightarrow> real option" where
  "series_min [] = None"
| "series_min [x] = x"
| "series_min (x # y # ys) =
     (case (x, series_min (y # ys)) of
        (Some a, Some b) \<Rightarrow> Some (min a b)
      | _ \<Rightarrow> None)"

definition drawdown_column :: "real list \<Rightarrow> real option list" where
  "drawdown_column vals =
     map (\<lambda>(v, peak). map_option (\<lambda>q. q * 100) (fdiv (v - peak) peak))
         (zip vals (cummax vals))"

record metrics =
  total_return :: "real option"
  num_trades :: nat
  win_rate :: real
  max_drawdown :: "real option"
  m_final_value :: real
  m_initial_capital :: real

definition calculate_metrics :: "results \<Rightarrow> metrics" where
  "calculate_metrics res =
     (let total_ret = map_option (\<lambda>q. q * 100)
            (fdiv (final_value res - initial_capital res) (initial_capital res));
          sell_trades = filter is_SELL (res_trades res);
          n = length sell_trades;
          win = (if n > 0
                 then real (length (filter profit_positive sell_trades)) / real n * 100
                 else 0);
          mdd = (if portfolio_df res \<noteq> []
                 then series_min (drawdown_column (map snd (portfolio_df res)))
                 else Some 0)
      in \<lparr>total_return = total_ret, num_trades = n, win_rate = win, max_drawdown = mdd,
          m_final_value = final_value res, m_initial_capital = initial_capital res\<rparr>)"

subsection \<open>The drawdown as the specification words it\<close>

text \<open>
  Written from the specification, to be compared with \<open>calculate_metrics\<close>: the peak at
  \<open>t\<close> is the largest value up to \<open>t\<close>, the drawdown at \<open>t\<close> is the distance to the peak
  in percent of the peak, and the metric is the least drawdown.
\<close>

definition spec_peak :: "real list \<Rightarrow> nat \<Rightarrow> real" where
  "spec_peak vals t = Max (set (take (Suc t) vals))"

definition spec_drawdown :: "real list \<Rightarrow> nat \<Rightarrow> real" where
  "spec_drawdown vals t = (vals ! t - spec_peak vals t) / spec_peak vals t * 100"

definition spec_max_drawdown :: "real list \<Rightarrow> real" where
  "spec_max_drawdown vals =
     (if vals = [] then 0 else Min (spec_drawdown vals ` {..<length vals}))"

subsection \<open>The pipeline of run_backtest\<close>

definition backtest_core ::
  "price_point list \<Rightarrow> nat \<Rightarrow> nat \<Rightarrow> real \<Rightarrow> py_error + results" where
  "backtest_core df short_window long_window initial_cap =
     simulate_trades
       (generate_signals (calculate_moving_averages df short_window long_window))
       initial_cap"

subsection \<open>Well-formed simulator states\<close>

fun is_BUY :: "trade \<Rightarrow> bool" where
  "is_BUY (BUY d p n) = True"
| "is_BUY (SELL d p n pr pp) = False"

text \<open>\<open>alternates b ts\<close>: the log \<open>ts\<close> alternates, beginning with a BUY iff \<open>b\<close>.\<close>

fun alternates :: "bool \<Rightarrow> trade list \<Rightarrow> bool" where
  "alternates b [] = True"
| "alternates b (t # ts) = (is_BUY t = b \<and> alternates (\<not> b) ts)"

text \<open>
  What the data model says of a simulator state. While a position is open,
  \<open>capital s + shares s * entry_price s\<close> is the cash that was available at the BUY, so
  the conjuncts about \<open>shares\<close> say that the holding is the number of whole shares
  that cash bought at the entry price, and that it is the share count of the BUY trade
  that ends the log.
\<close>

definition state_inv :: "sim_state \<Rightarrow> bool" where
  "state_inv s =
     (0 \<le> capital s \<and> shares s \<in> \<int> \<and> 0 \<le> shares s
      \<and> (in_position s \<longleftrightarrow> 0 < shares s)
      \<and> (in_position s \<longrightarrow> 0 < entry_price s
            \<and> shares s * entry_price s \<le> capital s + shares s * entry_price s
            \<and> shares s = of_int \<lfloor>(capital s + shares s * entry_price s) / entry_price s\<rfloor>
            \<and> (\<exists>d. entry_date s = Some d \<and> trades s \<noteq> []
                  \<and> last (trades s) = BUY d (entry_price s) (shares s)))
      \<and> alternates True (trades s)
      \<and> (in_position s \<longleftrightarrow> odd (length (trades s))))"

subsection \<open>Sample runs\<close>

definition sample_prices :: "price_point list" where
  "sample_prices =
     [\<lparr>Date = 0, Close = 10\<rparr>, \<lparr>Date = 1, Close = 10\<rparr>,
      \<lparr>Date = 2, Close = 9\<rparr>, \<lparr>Date = 3, Close = 10\<rparr>]"

definition sample_row_flat :: signal_row where
  "sample_row_flat =
     \<lparr>Date = 1, Close = 10, SMA_Short = Some 10, SMA_Long = Some 10,
      Signal = - 1, Position = Some (- 1)\<rparr>"

definition sample_row_buy :: signal_row where
  "sample_row_buy =
     \<lparr>Date = 2, Close = 9, SMA_Short = Some (19 / 2), SMA_Long = Some 9,
      Signal = 1, Position = Some 2\<rparr>"

definition sample_row_sell :: signal_row where
  "sample_row_sell =
     \<lparr>Date = 3, Close = 10, SMA_Short = Some (19 / 2), SMA_Long = Some 10,
      Signal = - 1, Position = Some (- 2)\<rparr>"

definition sample_row_dear :: signal_row where
  "sample_row_dear =
     \<lparr>Date = 2, Close = 2000, SMA_Short = Some 1005, SMA_Long = Some 2000,
      Signal = 1, Position = Some 2\<rparr>"

definition sample_row_negative :: signal_row where
  "sample_row_negative =
     \<lparr>Date = 3, Close = - 7, SMA_Short = Some 1, SMA_Long = Some 0,
      Signal = 1, Position = Some 2\<rparr>"

definition sample_state_flat :: sim_state where
  "sample_state_flat =
     \<lparr>capital = 1000, shares = 0, trades = [], portfolio_values = [(1, 1000)],
      in_position = False, entry_price = 0, entry_date = None\<rparr>"

definition sample_state_long :: sim_state where
  "sample_state_long =
     \<lparr>capital = 1, shares = 111, trades = [BUY 2 9 111],
      portfolio_values = [(1, 1000), (2, 1000)],
      in_position = True, entry_price = 9, entry_date = Some 2\<rparr>"

definition sample_results :: results where
  "sample_results =
     \<lparr>res_trades = [], portfolio_df = [(0, 1000), (1, 900), (2, 1100), (3, 550)],
      final_value = 550, initial_capital = 1000, shares_held = 0, cash = 550,
      res_in_position = False, unrealized_profit = 0, unrealized_pct = 0\<rparr>"

definition sample_results_empty :: results where
  "sample_results_empty =
     \<lparr>res_trades = [], portfolio_df = [],
      final_value = 1000, initial_capital = 1000, shares_held = 0, cash = 1000,
      res_in_position = False, unrealized_profit = 0, unrealized_pct = 0\<rparr>"

section \<open>Properties\<close>

lemma length_diff: "length (diff xs) = length xs"
  by (cases xs) simp_all

lemma length_generate_signals: "length (generate_signals df) = length df"
  by (simp add: generate_signals_def Let_def length_diff)

lemma generate_signals_row:
  assumes "r \<in> set (generate_signals df)"
  shows "Signal r = signal_of (SMA_Short r) (SMA_Long r)"
proof -
  let ?sig = "map (\<lambda>r. signal_of (SMA_Short r) (SMA_Long r)) df"
  from assms obtain q s p where
    mem: "(q, s, p) \<in> set (zip df (zip ?sig (diff ?sig)))"
    and r: "r = indicator_row.extend q (signal_row.fields s p)"
    by (auto simp: generate_signals_def Let_def)
  from mem obtain i where i: "i < length df" "q = df ! i" "s = ?sig ! i"
    by (auto simp: set_zip)
  then have "s = signal_of (SMA_Short q) (SMA_Long q)" by simp
  with r show ?thesis
    by (simp add: indicator_row.defs signal_row.defs)
qed

text \<open>
  Claim C4. Every row that survives \<open>dropna\<close> has both averages defined, and its
  signal is +1 exactly when the short average is strictly greater than the long one and
  -1 otherwise; a tie gives -1 and no row with signal 0 reaches the simulator.
\<close>

theorem signal_of_filtered_row:
  assumes "r \<in> set (dropna (generate_signals df))"
  shows "\<exists>a b. SMA_Short r = Some a \<and> SMA_Long r = Some b
           \<and> Signal r = (if a > b then 1 else - 1)
           \<and> (a = b \<longrightarrow> Signal r = - 1) \<and> Signal r \<noteq> 0"
proof -
  from assms have mem: "r \<in> set (generate_signals df)" and na: "notna r"
    by (simp_all add: dropna_def)
  from na obtain a b where ab: "SMA_Short r = Some a" "SMA_Long r = Some b"
    by (auto simp: notna_def)
  from generate_signals_row [OF mem] ab
  have "Signal r = (if a > b then 1 else - 1)"
    by (simp add: signal_of_def gt_mask_def le_mask_def)
  with ab show ?thesis by auto
qed

theorem signal_of_filtered_row_witness:
  "\<lparr>Date = 1, Close = 2, SMA_Short = Some 2, SMA_Long = Some 1, Signal = 1, Position = Some 2\<rparr>
     \<in> set (dropna (generate_signals
          [\<lparr>Date = 0, Close = 1, SMA_Short = Some 1, SMA_Long = Some 1\<rparr>,
           \<lparr>Date = 1, Close = 2, SMA_Short = Some 2, SMA_Long = Some 1\<rparr>]))
   \<and> (\<exists>a b. Some (2::real) = Some a \<and> Some (1::real) = Some b
          \<and> (1::int) = (if a > b then 1 else - 1))"
proof -
  have h: "\<lparr>Date = 1, Close = 2, SMA_Short = Some 2, SMA_Long = Some 1,
             Signal = 1, Position = Some 2\<rparr>
     \<in> set (dropna (generate_signals
          [\<lparr>Date = 0, Close = 1, SMA_Short = Some 1, SMA_Long = Some 1\<rparr>,
           \<lparr>Date = 1, Close = 2, SMA_Short = Some 2, SMA_Long = Some 1\<rparr>]))"
    by (simp add: dropna_def notna_def generate_signals_def signal_of_def gt_mask_def
          le_mask_def indicator_row.defs signal_row.defs)
  from signal_of_filtered_row [OF h] h show ?thesis by simp
qed

subsection \<open>A run in which no row survives the warm-up\<close>

text \<open>
  Claim C1. The claim asks for a result without trades and with the final value equal
  to the initial capital when \<open>dropna\<close> leaves no row. The program reads the last row
  of the filtered frame after the loop, so on every such input it raises IndexError and
  \<open>calculate_metrics\<close> is never reached.
\<close>

theorem simulate_trades_no_rows_raises:
  "dropna df = [] \<Longrightarrow> simulate_trades df initial_cap = Inl IndexError"
  by (simp add: simulate_trades_def)

theorem simulate_trades_no_rows_raises_witness:
  "dropna (generate_signals (calculate_moving_averages [\<lparr>Date = 0, Close = 5\<rparr>] 20 50)) = []
   \<and> backtest_core [\<lparr>Date = 0, Close = 5\<rparr>] 20 50 10000 = Inl IndexError"
proof -
  have h: "dropna (generate_signals
             (calculate_moving_averages [\<lparr>Date = 0, Close = 5\<rparr>] 20 50)) = []"
    by (simp add: calculate_moving_averages_def rolling_mean_def generate_signals_def
          dropna_def notna_def signal_of_def gt_mask_def le_mask_def
          indicator_row.defs signal_row.defs price_point.defs)
  from simulate_trades_no_rows_raises [OF h, of 10000] h show ?thesis
    by (simp add: backtest_core_def)
qed

subsection \<open>Trade count and win rate\<close>

lemma ratio_pct_le: "a \<le> b \<Longrightarrow> 0 < b \<Longrightarrow> real a / real b * 100 \<le> 100"
  by (simp add: pos_divide_le_eq)

text \<open>
  Claim C7. \<open>num_trades\<close> is the number of SELL trades of the log; \<open>win_rate\<close> is the
  number of SELL trades with a positive profit over \<open>num_trades\<close>, times 100, when there
  is a SELL trade, and 0 when there is none; it lies between 0 and 100 on every input.
\<close>

theorem win_rate_counts_sells:
  "num_trades (calculate_metrics res) = length (filter is_SELL (res_trades res))
   \<and> win_rate (calculate_metrics res) =
       (if num_trades (calculate_metrics res) > 0
        then real (length (filter (\<lambda>t. is_SELL t \<and> profit_positive t) (res_trades res)))
               / real (num_trades (calculate_metrics res)) * 100
        else 0)
   \<and> 0 \<le> win_rate (calculate_metrics res) \<and> win_rate (calculate_metrics res) \<le> 100"
proof -
  let ?sells = "filter is_SELL (res_trades res)"
  let ?wins = "filter profit_positive ?sells"
  have n: "num_trades (calculate_metrics res) = length ?sells"
    by (simp add: calculate_metrics_def Let_def)
  have w: "win_rate (calculate_metrics res) =
      (if length ?sells > 0 then real (length ?wins) / real (length ?sells) * 100 else 0)"
    by (simp add: calculate_metrics_def Let_def)
  have f: "?wins = filter (\<lambda>t. is_SELL t \<and> profit_positive t) (res_trades res)"
    by (simp add: conj_commute)
  have le: "length ?wins \<le> length ?sells" by (rule length_filter_le)
  have lo: "0 \<le> win_rate (calculate_metrics res)" unfolding w by simp
  have hi: "win_rate (calculate_metrics res) \<le> 100"
  proof (cases "length ?sells > 0")
    case True
    from ratio_pct_le [OF le True] show ?thesis unfolding w using True by simp
  next
    case False
    then show ?thesis unfolding w by simp
  qed
  from n w f lo hi show ?thesis by simp
qed

subsection \<open>Maximum drawdown\<close>

lemma length_cummax_from: "length (cummax_from m xs) = length xs"
  by (induction xs arbitrary: m) simp_all

lemma length_cummax: "length (cummax xs) = length xs"
  by (cases xs) (simp_all add: length_cummax_from)

lemma Max_insert_max:
  "finite S \<Longrightarrow> Max (insert (max m x) S) = Max (insert m (insert x S))"
  by (cases "S = {}") (simp_all add: max.assoc)

lemma cummax_from_nth:
  "i < length xs \<Longrightarrow> cummax_from m xs ! i = Max (insert m (set (take (Suc i) xs)))"
proof (induction xs arbitrary: m i)
  case Nil
  then show ?case by simp
next
  case (Cons x xs)
  show ?case
  proof (cases i)
    case 0
    then show ?thesis by (simp add: max.commute)
  next
    case (Suc j)
    with Cons.prems have j: "j < length xs" by simp
    have "cummax_from m (x # xs) ! i = Max (insert (max m x) (set (take (Suc j) xs)))"
      using Suc Cons.IH [OF j] by simp
    also have "\<dots> = Max (insert m (insert x (set (take (Suc j) xs))))"
      by (rule Max_insert_max) simp
    finally show ?thesis using Suc by simp
  qed
qed

lemma cummax_nth: "i < length xs \<Longrightarrow> cummax xs ! i = spec_peak xs i"
proof (cases xs)
  case Nil
  assume "i < length xs"
  with Nil show ?thesis by simp
next
  case (Cons x ys)
  assume i: "i < length xs"
  show ?thesis
  proof (cases i)
    case 0
    with Cons show ?thesis by (simp add: spec_peak_def)
  next
    case (Suc j)
    with i Cons have "j < length ys" by simp
    from cummax_from_nth [OF this, of x] Suc Cons show ?thesis
      by (simp add: spec_peak_def)
  qed
qed

lemma series_min_Some: "ys \<noteq> [] \<Longrightarrow> series_min (map Some ys) = Some (Min (set ys))"
proof (induction ys)
  case Nil
  then show ?case by simp
next
  case (Cons y ys)
  show ?case
  proof (cases ys)
    case Nil
    then show ?thesis by simp
  next
    case (Cons z zs)
    with Cons.IH have "series_min (map Some (z # zs)) = Some (Min (set (z # zs)))" by simp
    with Cons show ?thesis by (simp add: min.commute min.left_commute)
  qed
qed

lemma drawdown_column_spec:
  assumes "\<forall>t<length vals. spec_peak vals t \<noteq> 0"
  shows "drawdown_column vals = map Some (map (spec_drawdown vals) [0..<length vals])"
proof (rule nth_equalityI)
  show "length (drawdown_column vals) = length (map Some (map (spec_drawdown vals) [0..<length vals]))"
    by (simp add: drawdown_column_def length_cummax)
next
  fix i assume "i < length (drawdown_column vals)"
  then have i: "i < length vals" by (simp add: drawdown_column_def length_cummax)
  with assms have nz: "spec_peak vals i \<noteq> 0" by simp
  from i nz show "drawdown_column vals ! i = map Some (map (spec_drawdown vals) [0..<length vals]) ! i"
    by (simp add: drawdown_column_def length_cummax cummax_nth fdiv_def spec_drawdown_def)
qed

lemma spec_peak_pos:
  assumes "\<forall>v\<in>set vals. 0 < v" and "t < length vals"
  shows "0 < spec_peak vals t"
proof -
  from assms(2) have ne: "vals \<noteq> []" by auto
  have "Max (set (take (Suc t) vals)) \<in> set (take (Suc t) vals)"
    by (rule Max_in) (simp_all add: ne)
  then have "Max (set (take (Suc t) vals)) \<in> set vals" by (rule in_set_takeD)
  with assms(1) show ?thesis by (simp add: spec_peak_def)
qed

lemma max_drawdown_eq_spec:
  assumes "\<forall>t<length (portfolio_df res). spec_peak (map snd (portfolio_df res)) t \<noteq> 0"
  shows "max_drawdown (calculate_metrics res) = Some (spec_max_drawdown (map snd (portfolio_df res)))"
proof (cases "portfolio_df res = []")
  case True
  then show ?thesis by (simp add: calculate_metrics_def spec_max_drawdown_def Let_def)
next
  case False
  let ?vals = "map snd (portfolio_df res)"
  from assms have "\<forall>t<length ?vals. spec_peak ?vals t \<noteq> 0" by simp
  from drawdown_column_spec [OF this]
  have dc: "drawdown_column ?vals = map Some (map (spec_drawdown ?vals) [0..<length ?vals])" .
  have ne: "map (spec_drawdown ?vals) [0..<length ?vals] \<noteq> []" using False by simp
  have "series_min (drawdown_column ?vals) = Some (Min (set (map (spec_drawdown ?vals) [0..<length ?vals])))"
    unfolding dc by (rule series_min_Some [OF ne])
  also have "set (map (spec_drawdown ?vals) [0..<length ?vals]) = spec_drawdown ?vals ` {..<length ?vals}"
    by (simp add: atLeast0LessThan)
  finally show ?thesis using False
    by (simp add: calculate_metrics_def spec_max_drawdown_def Let_def)
qed

lemma spec_max_drawdown_le0:
  assumes "vals \<noteq> []"
  shows "spec_max_drawdown vals \<le> 0"
proof -
  from assms have 0: "0 < length vals" by simp
  have "spec_peak vals 0 = vals ! 0" using assms by (cases vals) (simp_all add: spec_peak_def)
  then have d0: "spec_drawdown vals 0 = 0" by (simp add: spec_drawdown_def)
  have "Min (spec_drawdown vals ` {..<length vals}) \<le> spec_drawdown vals 0"
    by (rule Min_le) (use 0 in auto)
  with d0 assms show ?thesis by (simp add: spec_max_drawdown_def)
qed

text \<open>
  Claim C6. Where no running peak is zero, \<open>max_drawdown\<close> is the least, over the
  trajectory, of the distance of the value to the running peak in percent of the peak;
  on a non-empty trajectory of positive values it is at most 0; on an empty trajectory
  it is 0.
\<close>

theorem max_drawdown_is_least_drawdown:
  "((\<forall>t<length (portfolio_df res). spec_peak (map snd (portfolio_df res)) t \<noteq> 0) \<longrightarrow>
      max_drawdown (calculate_metrics res) = Some (spec_max_drawdown (map snd (portfolio_df res))))
   \<and> (portfolio_df res \<noteq> [] \<and> (\<forall>v\<in>set (map snd (portfolio_df res)). 0 < v) \<longrightarrow>
      (\<exists>m. max_drawdown (calculate_metrics res) = Some m \<and> m \<le> 0))
   \<and> (portfolio_df res = [] \<longrightarrow> max_drawdown (calculate_metrics res) = Some 0)"
proof (intro conjI impI)
  assume "\<forall>t<length (portfolio_df res). spec_peak (map snd (portfolio_df res)) t \<noteq> 0"
  then show "max_drawdown (calculate_metrics res) = Some (spec_max_drawdown (map snd (portfolio_df res)))"
    by (rule max_drawdown_eq_spec)
next
  assume a: "portfolio_df res \<noteq> [] \<and> (\<forall>v\<in>set (map snd (portfolio_df res)). 0 < v)"
  let ?vals = "map snd (portfolio_df res)"
  have "\<forall>t<length (portfolio_df res). spec_peak ?vals t \<noteq> 0"
  proof (intro allI impI)
    fix t assume "t < length (portfolio_df res)"
    then have "t < length ?vals" by simp
    with a spec_peak_pos [of ?vals t] show "spec_peak ?vals t \<noteq> 0" by fastforce
  qed
  then have "max_drawdown (calculate_metrics res) = Some (spec_max_drawdown ?vals)"
    by (rule max_drawdown_eq_spec)
  moreover have "spec_max_drawdown ?vals \<le> 0"
    by (rule spec_max_drawdown_le0) (use a in simp)
  ultimately show "\<exists>m. max_drawdown (calculate_metrics res) = Some m \<and> m \<le> 0" by simp
next
  assume "portfolio_df res = []"
  then show "max_drawdown (calculate_metrics res) = Some 0"
    by (simp add: calculate_metrics_def Let_def)
qed

theorem max_drawdown_is_least_drawdown_witness:
  "list_all (\<lambda>t. spec_peak (map snd (portfolio_df sample_results)) t \<noteq> 0)
      [0..<length (portfolio_df sample_results)]
   \<and> portfolio_df sample_results \<noteq> []
   \<and> list_all (\<lambda>v. 0 < v) (map snd (portfolio_df sample_results))
   \<and> max_drawdown (calculate_metrics sample_results)
        = Some (spec_max_drawdown (map snd (portfolio_df sample_results)))
   \<and> max_drawdown (calculate_metrics sample_results) = Some (- 50)
   \<and> portfolio_df sample_results_empty = []
   \<and> max_drawdown (calculate_metrics sample_results_empty) = Some 0"
proof -
  have h1: "\<forall>t<length (portfolio_df sample_results).
        spec_peak (map snd (portfolio_df sample_results)) t \<noteq> 0"
    by (simp add: sample_results_def spec_peak_def All_less_Suc2 numeral_nat
          take_Suc_conv_app_nth)
  have h2: "portfolio_df sample_results \<noteq> []
      \<and> (\<forall>v\<in>set (map snd (portfolio_df sample_results)). 0 < v)"
    by (simp add: sample_results_def)
  have h3: "portfolio_df sample_results_empty = []"
    by (simp add: sample_results_empty_def)
  have v: "max_drawdown (calculate_metrics sample_results) = Some (- 50)"
    by (simp add: sample_results_def calculate_metrics_def drawdown_column_def fdiv_def)
  from max_drawdown_is_least_drawdown [of sample_results] h1
  have e1: "max_drawdown (calculate_metrics sample_results)
        = Some (spec_max_drawdown (map snd (portfolio_df sample_results)))"
    by blast
  from max_drawdown_is_least_drawdown [of sample_results_empty] h3
  have e2: "max_drawdown (calculate_metrics sample_results_empty) = Some 0"
    by blast
  from h1 h2 h3 v e1 e2 show ?thesis by (simp add: list_all_iff)
qed

subsection \<open>One day of the simulator\<close>

lemma step_other:
  "Position r \<noteq> Some 2 \<Longrightarrow> Position r \<noteq> Some (- 2) \<Longrightarrow>
   step s r = Inr (s\<lparr>portfolio_values :=
                        portfolio_values s @ [(Date r, capital s + shares s * Close r)]\<rparr>)"
  by (simp add: step_def Let_def)

lemma alternates_snoc:
  "alternates b (ts @ [t]) = (alternates b ts \<and> (is_BUY t = (b = even (length ts))))"
  by (induction ts arbitrary: b) auto

lemma floor_mult_le: "0 < p \<Longrightarrow> of_int \<lfloor>c / p\<rfloor> * p \<le> (c::real)"
  by (simp add: pos_le_divide_eq [symmetric])

lemma floor_nonneg_quot: "0 \<le> c \<Longrightarrow> 0 < p \<Longrightarrow> 0 \<le> \<lfloor>c / (p::real)\<rfloor>"
  by simp

lemma init_state_inv: "0 \<le> c \<Longrightarrow> state_inv (init_state c)"
  by (simp add: state_inv_def init_state_def)

lemma inv_flat: "state_inv s \<Longrightarrow> \<not> in_position s \<Longrightarrow> shares s = 0"
  by (auto simp: state_inv_def)

lemma step_buy_none:
  assumes "\<not> in_position s" "Position r = Some 2" "Close r \<noteq> 0"
    and "\<not> 0 < \<lfloor>capital s / Close r\<rfloor>"
  shows "step s r = Inr (s\<lparr>portfolio_values :=
                        portfolio_values s @ [(Date r, capital s + shares s * Close r)],
                      shares := of_int \<lfloor>capital s / Close r\<rfloor>\<rparr>)"
  using assms by (simp add: step_def Let_def)

lemma step_buy_some:
  assumes "\<not> in_position s" "Position r = Some 2" "Close r \<noteq> 0"
    and "0 < \<lfloor>capital s / Close r\<rfloor>"
  shows "step s r = Inr (s\<lparr>portfolio_values :=
                        portfolio_values s @ [(Date r, capital s + shares s * Close r)],
                      shares := of_int \<lfloor>capital s / Close r\<rfloor>,
                      capital := capital s - of_int \<lfloor>capital s / Close r\<rfloor> * Close r,
                      in_position := True,
                      entry_price := Close r,
                      entry_date := Some (Date r),
                      trades := trades s @
                        [BUY (Date r) (Close r) (of_int \<lfloor>capital s / Close r\<rfloor>)]\<rparr>)"
  using assms by (simp add: step_def Let_def)

lemma step_sell:
  assumes "in_position s" "Position r = Some (- 2)" "entry_price s \<noteq> 0"
  shows "step s r = Inr (s\<lparr>portfolio_values :=
                        portfolio_values s @ [(Date r, capital s + shares s * Close r)],
                      capital := capital s + shares s * Close r,
                      trades := trades s @
                        [SELL (Date r) (Close r) (shares s)
                           ((Close r - entry_price s) * shares s)
                           ((Close r - entry_price s) / entry_price s * 100)],
                      shares := 0,
                      in_position := False,
                      entry_price := 0,
                      entry_date := None\<rparr>)"
  using assms by (simp add: step_def Let_def)

lemma step_inv:
  assumes inv: "state_inv s" and p: "0 < Close r"
  shows "\<exists>s'. step s r = Inr s' \<and> state_inv s'"
proof -
  consider (buy) "Position r = Some 2" "\<not> in_position s"
    | (sell) "Position r = Some (- 2)" "in_position s"
    | (other) "\<not> (Position r = Some 2 \<and> \<not> in_position s)"
        "\<not> (Position r = Some (- 2) \<and> in_position s)"
    by blast
  then show ?thesis
  proof cases
    case buy
    from inv buy(2) have sh0: "shares s = 0" by (rule inv_flat)
    from inv have c: "0 \<le> capital s" by (simp add: state_inv_def)
    from inv buy(2) have ev: "even (length (trades s))" and alt: "alternates True (trades s)"
      by (simp_all add: state_inv_def)
    from p have nz: "Close r \<noteq> 0" by simp
    show ?thesis
    proof (cases "0 < \<lfloor>capital s / Close r\<rfloor>")
      case True
      note st = step_buy_some [OF buy(2) buy(1) nz True]
      have le: "of_int \<lfloor>capital s / Close r\<rfloor> * Close r \<le> capital s"
        using p by (rule floor_mult_le)
      have "state_inv (s\<lparr>portfolio_values :=
                        portfolio_values s @ [(Date r, capital s + shares s * Close r)],
                      shares := of_int \<lfloor>capital s / Close r\<rfloor>,
                      capital := capital s - of_int \<lfloor>capital s / Close r\<rfloor> * Close r,
                      in_position := True,
                      entry_price := Close r,
                      entry_date := Some (Date r),
                      trades := trades s @
                        [BUY (Date r) (Close r) (of_int \<lfloor>capital s / Close r\<rfloor>)]\<rparr>)"
        using True le p ev alt nz by (simp add: state_inv_def alternates_snoc)
      with st show ?thesis by simp
    next
      case False
      note st = step_buy_none [OF buy(2) buy(1) nz False]
      from c p have "0 \<le> \<lfloor>capital s / Close r\<rfloor>" by (rule floor_nonneg_quot)
      moreover from False have "\<lfloor>capital s / Close r\<rfloor> \<le> 0" by (simp only: not_less)
      ultimately have z: "\<lfloor>capital s / Close r\<rfloor> = 0" by (rule order.antisym [rotated])
      have "state_inv (s\<lparr>portfolio_values :=
                        portfolio_values s @ [(Date r, capital s + shares s * Close r)],
                      shares := of_int \<lfloor>capital s / Close r\<rfloor>\<rparr>)"
        using inv buy(2) unfolding z by (simp add: state_inv_def)
      with st show ?thesis by simp
    qed
  next
    case sell
    from inv sell(2) have e: "0 < entry_price s" and sh: "0 \<le> shares s"
      and c: "0 \<le> capital s" and od: "odd (length (trades s))"
      and alt: "alternates True (trades s)"
      by (simp_all add: state_inv_def)
    from e have nz: "entry_price s \<noteq> 0" by simp
    note st = step_sell [OF sell(2) sell(1) nz]
    have "0 \<le> shares s * Close r" using sh p by simp
    with c have "0 \<le> capital s + shares s * Close r" by simp
    then have "state_inv (s\<lparr>portfolio_values :=
                        portfolio_values s @ [(Date r, capital s + shares s * Close r)],
                      capital := capital s + shares s * Close r,
                      trades := trades s @
                        [SELL (Date r) (Close r) (shares s)
                           ((Close r - entry_price s) * shares s)
                           ((Close r - entry_price s) / entry_price s * 100)],
                      shares := 0,
                      in_position := False,
                      entry_price := 0,
                      entry_date := None\<rparr>)"
      using od alt by (simp add: state_inv_def alternates_snoc)
    with st show ?thesis by simp
  next
    case other
    then have "step s r = Inr (s\<lparr>portfolio_values :=
                        portfolio_values s @ [(Date r, capital s + shares s * Close r)]\<rparr>)"
      by (auto simp: step_def Let_def)
    moreover have "state_inv (s\<lparr>portfolio_values :=
                        portfolio_values s @ [(Date r, capital s + shares s * Close r)]\<rparr>)"
      using inv by (auto simp: state_inv_def)
    ultimately show ?thesis by simp
  qed
qed

lemma run_loop_inv:
  "state_inv s \<Longrightarrow> \<forall>r\<in>set rows. 0 < Close r \<Longrightarrow>
   \<exists>s'. run_loop s rows = Inr s' \<and> state_inv s'"
proof (induction rows arbitrary: s)
  case Nil
  then show ?case by simp
next
  case (Cons r rows)
  from Cons.prems have "0 < Close r" by simp
  with Cons.prems(1) obtain s1 where s1: "step s r = Inr s1" "state_inv s1"
    using step_inv by blast
  from Cons.prems(2) have "\<forall>r\<in>set rows. 0 < Close r" by simp
  from Cons.IH [OF s1(2) this] s1(1) show ?case by simp
qed

lemma run_loop_append:
  "run_loop s (xs @ ys) =
     (case run_loop s xs of Inl e \<Rightarrow> Inl e | Inr s' \<Rightarrow> run_loop s' ys)"
  by (induction xs arbitrary: s) (simp_all split: sum.splits)

lemma step_entry_nonzero:
  "in_position s \<longrightarrow> entry_price s \<noteq> 0 \<Longrightarrow> step s r = Inr s' \<Longrightarrow>
   in_position s' \<longrightarrow> entry_price s' \<noteq> 0"
  by (auto simp: step_def Let_def split: if_splits)

lemma run_loop_entry_nonzero:
  "in_position s \<longrightarrow> entry_price s \<noteq> 0 \<Longrightarrow> run_loop s rows = Inr s' \<Longrightarrow>
   in_position s' \<longrightarrow> entry_price s' \<noteq> 0"
proof (induction rows arbitrary: s)
  case Nil
  then show ?case by simp
next
  case (Cons r rows)
  from Cons.prems(2) obtain s1 where s1: "step s r = Inr s1" "run_loop s1 rows = Inr s'"
    by (auto split: sum.splits)
  from step_entry_nonzero [OF Cons.prems(1) s1(1)] Cons.IH s1(2) show ?case by blast
qed

lemma nonneg_nonzero_pos: "0 \<le> (n::int) \<Longrightarrow> n \<noteq> 0 \<Longrightarrow> 0 < n"
  by simp

lemma run_flat: "run_loop (init_state 1000) [sample_row_flat] = Inr sample_state_flat"
  by (simp add: init_state_def step_def sample_row_flat_def sample_state_flat_def Let_def)

lemma run_long:
  "run_loop (init_state 1000) [sample_row_flat, sample_row_buy] = Inr sample_state_long"
  by (simp add: init_state_def step_def sample_row_flat_def sample_row_buy_def
        sample_state_long_def Let_def)

subsection \<open>States the simulator reaches\<close>

text \<open>
  Claim C10. On close prices that are all positive and an initial capital that is not
  negative, the simulator runs through every prefix of the rows without an error, and
  the state it reaches has cash at least 0, a whole number of shares that is at least 0
  and is what the cash at the BUY bought at the entry price, holds shares exactly while
  in position, and has a trade log that alternates BUY, SELL, BUY, ... from a BUY, with
  a position open exactly when the log ends with a BUY.
\<close>

theorem simulator_state_invariant:
  assumes "0 \<le> initial_cap" and "\<forall>r\<in>set rows. 0 < Close r"
  shows "\<forall>n\<le>length rows.
           \<exists>s. run_loop (init_state initial_cap) (take n rows) = Inr s \<and> state_inv s"
proof (intro allI impI)
  fix n assume "n \<le> length rows"
  from assms(2) have "\<forall>r\<in>set (take n rows). 0 < Close r"
    by (auto dest: in_set_takeD)
  with init_state_inv [OF assms(1)]
  show "\<exists>s. run_loop (init_state initial_cap) (take n rows) = Inr s \<and> state_inv s"
    by (rule run_loop_inv)
qed

theorem simulator_state_invariant_witness:
  "(0::real) \<le> 1000
   \<and> 0 < Close sample_row_flat \<and> 0 < Close sample_row_buy \<and> 0 < Close sample_row_sell
   \<and> (\<exists>s. run_loop (init_state 1000) (take 2 [sample_row_flat, sample_row_buy, sample_row_sell])
             = Inr s \<and> state_inv s \<and> in_position s \<and> shares s = 111 \<and> capital s = 1)"
proof -
  have h1: "(0::real) \<le> 1000" by simp
  have p: "0 < Close sample_row_flat \<and> 0 < Close sample_row_buy \<and> 0 < Close sample_row_sell"
    by (simp add: sample_row_flat_def sample_row_buy_def sample_row_sell_def)
  then have h2: "\<forall>r\<in>set [sample_row_flat, sample_row_buy, sample_row_sell]. 0 < Close r"
    by simp
  have n: "(2::nat) \<le> length [sample_row_flat, sample_row_buy, sample_row_sell]" by simp
  from simulator_state_invariant [OF h1 h2] n
  obtain s where s: "run_loop (init_state 1000)
        (take 2 [sample_row_flat, sample_row_buy, sample_row_sell]) = Inr s" "state_inv s"
    by blast
  have t: "take 2 [sample_row_flat, sample_row_buy, sample_row_sell]
             = [sample_row_flat, sample_row_buy]"
    by (simp add: numeral_2_eq_2)
  from s(1) have "in_position s \<and> shares s = 111 \<and> capital s = 1"
    unfolding t run_long by (auto simp: sample_state_long_def)
  with s h1 p show ?thesis by blast
qed

subsection \<open>The BUY transition\<close>

text \<open>
  Claim C2. Let the simulator, started with a capital that is not negative, have
  processed rows with positive close prices and be out of position, and let the next row
  have a Position of +2 and a positive close price \<open>p\<close>. With cash \<open>c\<close>: if
  \<open>floor (c / p)\<close> is 0, the day only adds its snapshot, no trade is appended and cash,
  shares, position flag, entry price and entry date stay as they are; otherwise
  \<open>floor (c / p)\<close> is positive, that many shares are bought, cash goes down by shares
  times \<open>p\<close>, the position is open, entry price and date are those of the row, and one
  BUY trade with these fields is appended.
\<close>

theorem buy_transition:
  assumes "0 \<le> initial_cap" and "\<forall>r\<in>set pre. 0 < Close r"
    and "run_loop (init_state initial_cap) pre = Inr s"
    and "\<not> in_position s" and "Position row = Some 2" and "0 < Close row"
  shows "(\<lfloor>capital s / Close row\<rfloor> = 0 \<longrightarrow>
            step s row = Inr (s\<lparr>portfolio_values :=
                portfolio_values s @ [(Date row, capital s + shares s * Close row)]\<rparr>))
       \<and> (\<lfloor>capital s / Close row\<rfloor> \<noteq> 0 \<longrightarrow>
            0 < \<lfloor>capital s / Close row\<rfloor>
            \<and> step s row = Inr (s\<lparr>portfolio_values :=
                  portfolio_values s @ [(Date row, capital s + shares s * Close row)],
                shares := of_int \<lfloor>capital s / Close row\<rfloor>,
                capital := capital s - of_int \<lfloor>capital s / Close row\<rfloor> * Close row,
                in_position := True,
                entry_price := Close row,
                entry_date := Some (Date row),
                trades := trades s @
                  [BUY (Date row) (Close row) (of_int \<lfloor>capital s / Close row\<rfloor>)]\<rparr>))"
proof -
  from run_loop_inv [OF init_state_inv [OF assms(1)] assms(2)] assms(3)
  have inv: "state_inv s" by simp
  from inv assms(4) have sh0: "shares s = 0" by (rule inv_flat)
  from inv have c: "0 \<le> capital s" by (simp add: state_inv_def)
  from assms(6) have nz: "Close row \<noteq> 0" by simp
  from c assms(6) have nn: "0 \<le> \<lfloor>capital s / Close row\<rfloor>" by (rule floor_nonneg_quot)
  show ?thesis
  proof (intro conjI impI)
    assume z: "\<lfloor>capital s / Close row\<rfloor> = 0"
    then have "\<not> 0 < \<lfloor>capital s / Close row\<rfloor>" by simp
    from step_buy_none [OF assms(4) assms(5) nz this]
    have "step s row = Inr (s\<lparr>portfolio_values :=
                portfolio_values s @ [(Date row, capital s + shares s * Close row)],
              shares := shares s\<rparr>)"
      unfolding z sh0 by simp
    then show "step s row = Inr (s\<lparr>portfolio_values :=
                portfolio_values s @ [(Date row, capital s + shares s * Close row)]\<rparr>)"
      by simp
  next
    assume "\<lfloor>capital s / Close row\<rfloor> \<noteq> 0"
    with nn show "0 < \<lfloor>capital s / Close row\<rfloor>" by (rule nonneg_nonzero_pos)
  next
    assume "\<lfloor>capital s / Close row\<rfloor> \<noteq> 0"
    with nn have "0 < \<lfloor>capital s / Close row\<rfloor>" by (rule nonneg_nonzero_pos)
    from step_buy_some [OF assms(4) assms(5) nz this]
    show "step s row = Inr (s\<lparr>portfolio_values :=
                  portfolio_values s @ [(Date row, capital s + shares s * Close row)],
                shares := of_int \<lfloor>capital s / Close row\<rfloor>,
                capital := capital s - of_int \<lfloor>capital s / Close row\<rfloor> * Close row,
                in_position := True,
                entry_price := Close row,
                entry_date := Some (Date row),
                trades := trades s @
                  [BUY (Date row) (Close row) (of_int \<lfloor>capital s / Close row\<rfloor>)]\<rparr>)" .
  qed
qed

theorem buy_transition_witness:
  "(0::real) \<le> 1000 \<and> 0 < Close sample_row_flat
   \<and> run_loop (init_state 1000) [sample_row_flat] = Inr sample_state_flat
   \<and> \<not> in_position sample_state_flat
   \<and> Position sample_row_buy = Some 2 \<and> 0 < Close sample_row_buy
   \<and> \<lfloor>capital sample_state_flat / Close sample_row_buy\<rfloor> \<noteq> 0
   \<and> step sample_state_flat sample_row_buy = Inr sample_state_long
   \<and> Position sample_row_dear = Some 2 \<and> 0 < Close sample_row_dear
   \<and> \<lfloor>capital sample_state_flat / Close sample_row_dear\<rfloor> = 0
   \<and> step sample_state_flat sample_row_dear =
        Inr (sample_state_flat\<lparr>portfolio_values := [(1, 1000), (2, 1000)]\<rparr>)"
proof -
  have h1: "(0::real) \<le> 1000" by simp
  have p: "0 < Close sample_row_flat" by (simp add: sample_row_flat_def)
  then have h2: "\<forall>r\<in>set [sample_row_flat]. 0 < Close r" by simp
  note h3 = run_flat
  have h4: "\<not> in_position sample_state_flat" by (simp add: sample_state_flat_def)
  have b5: "Position sample_row_buy = Some 2" and b6: "0 < Close sample_row_buy"
    by (simp_all add: sample_row_buy_def)
  have d5: "Position sample_row_dear = Some 2" and d6: "0 < Close sample_row_dear"
    by (simp_all add: sample_row_dear_def)
  have fb: "\<lfloor>capital sample_state_flat / Close sample_row_buy\<rfloor> \<noteq> 0"
    by (simp add: sample_state_flat_def sample_row_buy_def)
  have fd: "\<lfloor>capital sample_state_flat / Close sample_row_dear\<rfloor> = 0"
    by (simp add: sample_state_flat_def sample_row_dear_def)
  from buy_transition [OF h1 h2 h3 h4 b5 b6] fb
  have sb: "step sample_state_flat sample_row_buy = Inr sample_state_long"
    by (simp add: sample_state_flat_def sample_row_buy_def sample_state_long_def)
  from buy_transition [OF h1 h2 h3 h4 d5 d6] fd
  have sd: "step sample_state_flat sample_row_dear =
        Inr (sample_state_flat\<lparr>portfolio_values := [(1, 1000), (2, 1000)]\<rparr>)"
    by (simp add: sample_state_flat_def sample_row_dear_def)
  from h1 p h3 h4 b5 b6 fb sb d5 d6 fd sd show ?thesis by blast
qed

subsection \<open>The SELL transition\<close>

text \<open>
  Claim C3. In every state the simulator reaches in which a position is open, a row
  with a Position of -2 adds shares times price to the cash, appends one SELL trade whose
  profit is (price - entry price) times shares and whose profit in percent is
  (price - entry price) / entry price times 100, and then sets shares to 0, the position
  flag to false, the entry price to 0 and the entry date to None.
\<close>

theorem sell_transition:
  assumes "run_loop (init_state initial_cap) pre = Inr s"
    and "in_position s" and "Position row = Some (- 2)"
  shows "step s row = Inr (s\<lparr>portfolio_values :=
                        portfolio_values s @ [(Date row, capital s + shares s * Close row)],
                      capital := capital s + shares s * Close row,
                      trades := trades s @
                        [SELL (Date row) (Close row) (shares s)
                           ((Close row - entry_price s) * shares s)
                           ((Close row - entry_price s) / entry_price s * 100)],
                      shares := 0,
                      in_position := False,
                      entry_price := 0,
                      entry_date := None\<rparr>)"
proof -
  have "in_position (init_state initial_cap) \<longrightarrow> entry_price (init_state initial_cap) \<noteq> 0"
    by (simp add: init_state_def)
  from run_loop_entry_nonzero [OF this assms(1)] assms(2)
  have "entry_price s \<noteq> 0" by simp
  with assms(2,3) show ?thesis by (rule step_sell)
qed

theorem sell_transition_witness:
  "run_loop (init_state 1000) [sample_row_flat, sample_row_buy] = Inr sample_state_long
   \<and> in_position sample_state_long \<and> Position sample_row_sell = Some (- 2)
   \<and> step sample_state_long sample_row_sell =
       Inr \<lparr>capital = 1111, shares = 0,
            trades = [BUY 2 9 111, SELL 3 10 111 111 (100 / 9)],
            portfolio_values = [(1, 1000), (2, 1000), (3, 1111)],
            in_position = False, entry_price = 0, entry_date = None\<rparr>"
proof -
  note h1 = run_long
  have h2: "in_position sample_state_long" by (simp add: sample_state_long_def)
  have h3: "Position sample_row_sell = Some (- 2)" by (simp add: sample_row_sell_def)
  from sell_transition [OF h1 h2 h3]
  have "step sample_state_long sample_row_sell =
       Inr \<lparr>capital = 1111, shares = 0,
            trades = [BUY 2 9 111, SELL 3 10 111 111 (100 / 9)],
            portfolio_values = [(1, 1000), (2, 1000), (3, 1111)],
            in_position = False, entry_price = 0, entry_date = None\<rparr>"
    by (simp add: sample_state_long_def sample_row_sell_def)
  with h1 h2 h3 show ?thesis by blast
qed

subsection \<open>A BUY signal at a negative price\<close>

text \<open>
  Claim C8, as amended. For a row with a Position of +2 and a negative close price,
  processed out of position with cash that is not negative, the simulator returns
  without an error, appends no trade, and leaves cash, position flag, entry price and
  entry date as they were.
\<close>

theorem negative_price_buy_no_trade:
  assumes "\<not> in_position s" and "Position row = Some 2" and "Close row < 0"
    and "0 \<le> capital s"
  shows "\<exists>s'. step s row = Inr s' \<and> trades s' = trades s \<and> capital s' = capital s
           \<and> in_position s' = in_position s \<and> entry_price s' = entry_price s
           \<and> entry_date s' = entry_date s"
proof -
  from assms(3) have nz: "Close row \<noteq> 0" by simp
  from assms(3,4) have "capital s / Close row \<le> 0"
    by (simp add: divide_nonneg_neg)
  then have "\<lfloor>capital s / Close row\<rfloor> \<le> 0" by (simp add: floor_le_zero)
  then have "\<not> 0 < \<lfloor>capital s / Close row\<rfloor>" by simp
  from step_buy_none [OF assms(1,2) nz this] show ?thesis by simp
qed

theorem negative_price_buy_no_trade_witness:
  "\<not> in_position (init_state 1000) \<and> Position sample_row_negative = Some 2
   \<and> Close sample_row_negative < 0 \<and> 0 \<le> capital (init_state 1000)
   \<and> (\<exists>s'. step (init_state 1000) sample_row_negative = Inr s'
          \<and> trades s' = [] \<and> capital s' = 1000 \<and> \<not> in_position s')"
proof -
  have h1: "\<not> in_position (init_state 1000)" by (simp add: init_state_def)
  have h2: "Position sample_row_negative = Some 2" by (simp add: sample_row_negative_def)
  have h3: "Close sample_row_negative < 0" by (simp add: sample_row_negative_def)
  have h4: "0 \<le> capital (init_state 1000)" by (simp add: init_state_def)
  from negative_price_buy_no_trade [OF h1 h2 h3 h4]
  have "\<exists>s'. step (init_state 1000) sample_row_negative = Inr s'
          \<and> trades s' = [] \<and> capital s' = 1000 \<and> \<not> in_position s'"
    by (auto simp: init_state_def)
  with h1 h2 h3 h4 show ?thesis by blast
qed

text \<open>
  Claim C8 as stated fails: the floor division is assigned to \<open>shares\<close> before the test
  \<open>shares > 0\<close>, so at a negative price the state does change. With 1000 in cash and a
  close of -7 the simulator ends the day holding -143 shares.
\<close>

theorem negative_price_buy_changes_shares:
  "step (init_state 1000) sample_row_negative =
     Inr \<lparr>capital = 1000, shares = - 143, trades = [], portfolio_values = [(3, 1000)],
          in_position = False, entry_price = 0, entry_date = None\<rparr>
   \<and> \<not> in_position (init_state 1000) \<and> Position sample_row_negative = Some 2
   \<and> Close sample_row_negative \<le> 0 \<and> shares (init_state 1000) = 0"
  by (simp add: init_state_def step_def sample_row_negative_def Let_def)

subsection \<open>The daily snapshot\<close>

lemma step_snapshot:
  "step s r = Inr s' \<Longrightarrow>
   portfolio_values s' = portfolio_values s @ [(Date r, capital s + shares s * Close r)]"
  by (auto simp: step_def Let_def split: if_splits)

lemma step_value_kept:
  assumes inv: "state_inv s" and p: "0 < Close r" and st: "step s r = Inr s'"
  shows "capital s' + shares s' * Close r = capital s + shares s * Close r"
proof -
  consider (buy) "Position r = Some 2" "\<not> in_position s"
    | (sell) "Position r = Some (- 2)" "in_position s"
    | (other) "\<not> (Position r = Some 2 \<and> \<not> in_position s)"
        "\<not> (Position r = Some (- 2) \<and> in_position s)"
    by blast
  then show ?thesis
  proof cases
    case buy
    from inv buy(2) have sh0: "shares s = 0" by (rule inv_flat)
    from inv have c: "0 \<le> capital s" by (simp add: state_inv_def)
    from p have nz: "Close r \<noteq> 0" by simp
    show ?thesis
    proof (cases "0 < \<lfloor>capital s / Close r\<rfloor>")
      case True
      from step_buy_some [OF buy(2) buy(1) nz True] st sh0 show ?thesis by auto
    next
      case False
      from c p have "0 \<le> \<lfloor>capital s / Close r\<rfloor>" by (rule floor_nonneg_quot)
      moreover from False have "\<lfloor>capital s / Close r\<rfloor> \<le> 0" by (simp only: not_less)
      ultimately have z: "\<lfloor>capital s / Close r\<rfloor> = 0" by (rule order.antisym [rotated])
      from step_buy_none [OF buy(2) buy(1) nz False] st sh0 show ?thesis
        unfolding z by auto
    qed
  next
    case sell
    from inv sell(2) have "entry_price s \<noteq> 0" by (simp add: state_inv_def)
    from step_sell [OF sell(2) sell(1) this] st show ?thesis by auto
  next
    case other
    then have "step s r = Inr (s\<lparr>portfolio_values :=
                        portfolio_values s @ [(Date r, capital s + shares s * Close r)]\<rparr>)"
      by (auto simp: step_def Let_def)
    with st show ?thesis by auto
  qed
qed

lemma run_loop_snapshots:
  assumes "state_inv s" and "\<forall>r\<in>set rows. 0 < Close r"
  shows "\<exists>s'. run_loop s rows = Inr s' \<and> state_inv s'
     \<and> map fst (portfolio_values s') = map fst (portfolio_values s) @ map Date rows
     \<and> (\<forall>i<length rows. \<exists>si. run_loop s (take (Suc i) rows) = Inr si
          \<and> snd (portfolio_values s' ! (length (portfolio_values s) + i))
              = capital si + shares si * Close (rows ! i))"
  using assms(2)
proof (induction rows rule: rev_induct)
  case Nil
  with assms(1) show ?case by simp
next
  case (snoc r rows)
  from snoc.prems have pr: "\<forall>r\<in>set rows. 0 < Close r" and p: "0 < Close r" by simp_all
  from snoc.IH [OF pr] obtain s1 where
    r1: "run_loop s rows = Inr s1" and i1: "state_inv s1"
    and d1: "map fst (portfolio_values s1) = map fst (portfolio_values s) @ map Date rows"
    and v1: "\<forall>i<length rows. \<exists>si. run_loop s (take (Suc i) rows) = Inr si
          \<and> snd (portfolio_values s1 ! (length (portfolio_values s) + i))
              = capital si + shares si * Close (rows ! i)"
    by blast
  from step_inv [OF i1 p] obtain s2 where st: "step s1 r = Inr s2" and i2: "state_inv s2"
    by blast
  have run: "run_loop s (rows @ [r]) = Inr s2"
    by (simp add: run_loop_append r1 st)
  have pv: "portfolio_values s2 =
      portfolio_values s1 @ [(Date r, capital s1 + shares s1 * Close r)]"
    using st by (rule step_snapshot)
  have val: "capital s2 + shares s2 * Close r = capital s1 + shares s1 * Close r"
    using i1 p st by (rule step_value_kept)
  have "length (map fst (portfolio_values s1))
          = length (map fst (portfolio_values s) @ map Date rows)"
    by (simp only: d1)
  then have len: "length (portfolio_values s1) = length (portfolio_values s) + length rows"
    by simp
  have d2: "map fst (portfolio_values s2)
          = map fst (portfolio_values s) @ map Date (rows @ [r])"
    by (simp add: pv d1)
  have v2: "\<exists>si. run_loop s (take (Suc i) (rows @ [r])) = Inr si
          \<and> snd (portfolio_values s2 ! (length (portfolio_values s) + i))
              = capital si + shares si * Close ((rows @ [r]) ! i)"
    if "i < length (rows @ [r])" for i
  proof (cases "i < length rows")
    case True
    with v1 obtain si where si: "run_loop s (take (Suc i) rows) = Inr si"
      "snd (portfolio_values s1 ! (length (portfolio_values s) + i))
              = capital si + shares si * Close (rows ! i)"
      by blast
    from True have "take (Suc i) (rows @ [r]) = take (Suc i) rows" by simp
    moreover from True len have "portfolio_values s2 ! (length (portfolio_values s) + i)
        = portfolio_values s1 ! (length (portfolio_values s) + i)"
      by (simp add: pv nth_append)
    moreover from True have "(rows @ [r]) ! i = rows ! i" by (simp add: nth_append)
    ultimately show ?thesis using si by simp
  next
    case False
    with that have i: "i = length rows" by simp
    have "portfolio_values s2 ! (length (portfolio_values s) + i)
        = (Date r, capital s1 + shares s1 * Close r)"
      unfolding i pv len [symmetric] by simp
    with run val show ?thesis by (simp add: i)
  qed
  from run i2 d2 v2 show ?case by blast
qed

text \<open>
  Claim C5. On positive close prices and an initial capital that is not negative, the
  run records exactly one snapshot per row, dated as the row, and its value is cash plus
  shares times the close of that day in the state reached once that day's row has been
  processed, that is, after the day's BUY or SELL at that close. (The program appends
  the snapshot before the transition; the transition at the same close does not change
  cash plus shares times close.)
\<close>

theorem snapshot_per_row:
  assumes "0 \<le> initial_cap" and "\<forall>r\<in>set rows. 0 < Close r"
  shows "\<exists>s. run_loop (init_state initial_cap) rows = Inr s
     \<and> map fst (portfolio_values s) = map Date rows
     \<and> (\<forall>i<length rows. \<exists>si. run_loop (init_state initial_cap) (take (Suc i) rows) = Inr si
          \<and> snd (portfolio_values s ! i) = capital si + shares si * Close (rows ! i))"
proof -
  have e: "portfolio_values (init_state initial_cap) = []" by (simp add: init_state_def)
  from run_loop_snapshots [OF init_state_inv [OF assms(1)] assms(2)]
  show ?thesis unfolding e by simp blast
qed

theorem snapshot_per_row_witness:
  "(0::real) \<le> 1000
   \<and> 0 < Close sample_row_flat \<and> 0 < Close sample_row_buy \<and> 0 < Close sample_row_sell
   \<and> (\<exists>s. run_loop (init_state 1000) [sample_row_flat, sample_row_buy, sample_row_sell] = Inr s
        \<and> map fst (portfolio_values s) = [1, 2, 3]
        \<and> (\<exists>si. run_loop (init_state 1000) [sample_row_flat, sample_row_buy] = Inr si
              \<and> snd (portfolio_values s ! 1) = capital si + shares si * 9))"
proof -
  let ?rows = "[sample_row_flat, sample_row_buy, sample_row_sell]"
  have h1: "(0::real) \<le> 1000" by simp
  have p: "0 < Close sample_row_flat \<and> 0 < Close sample_row_buy \<and> 0 < Close sample_row_sell"
    by (simp add: sample_row_flat_def sample_row_buy_def sample_row_sell_def)
  then have h2: "\<forall>r\<in>set ?rows. 0 < Close r" by simp
  from snapshot_per_row [OF h1 h2] obtain s where
    r: "run_loop (init_state 1000) ?rows = Inr s"
    and d: "map fst (portfolio_values s) = map Date ?rows"
    and v: "\<forall>i<length ?rows. \<exists>si. run_loop (init_state 1000) (take (Suc i) ?rows) = Inr si
          \<and> snd (portfolio_values s ! i) = capital si + shares si * Close (?rows ! i)"
    by blast
  from d have d': "map fst (portfolio_values s) = [1, 2, 3]"
    by (simp add: sample_row_flat_def sample_row_buy_def sample_row_sell_def)
  have "(1::nat) < length ?rows" by simp
  with v have "\<exists>si. run_loop (init_state 1000) (take (Suc 1) ?rows) = Inr si
          \<and> snd (portfolio_values s ! 1) = capital si + shares si * Close (?rows ! 1)"
    by blast
  then have v': "\<exists>si. run_loop (init_state 1000) [sample_row_flat, sample_row_buy] = Inr si
              \<and> snd (portfolio_values s ! 1) = capital si + shares si * 9"
    by (simp add: sample_row_buy_def)
  from r d' v' have ex: "\<exists>s. run_loop (init_state 1000) ?rows = Inr s
        \<and> map fst (portfolio_values s) = [1, 2, 3]
        \<and> (\<exists>si. run_loop (init_state 1000) [sample_row_flat, sample_row_buy] = Inr si
              \<and> snd (portfolio_values s ! 1) = capital si + shares si * 9)"
    by - (rule exI [of _ s], intro conjI, assumption+)
  from h1 p ex show ?thesis by blast
qed

subsection \<open>Windows that are not in order\<close>

lemma cma_equal_windows:
  assumes "r \<in> set (calculate_moving_averages df w w)"
  shows "SMA_Short r = SMA_Long r"
proof -
  let ?m = "rolling_mean w (map Close df)"
  from assms obtain p a b where mem: "(p, a, b) \<in> set (zip df (zip ?m ?m))"
    and r: "r = price_point.extend p (indicator_row.fields a b)"
    by (auto simp: calculate_moving_averages_def)
  from mem have "(a, b) \<in> set (zip ?m ?m)" by (rule set_zip_rightD)
  then have "a = b" by (auto simp: set_zip)
  with r show ?thesis by (simp add: price_point.defs indicator_row.defs)
qed

lemma signal_of_same: "signal_of a a = 0 \<or> signal_of a a = - 1"
  by (cases a) (simp_all add: signal_of_def gt_mask_def le_mask_def)

lemma diff_small:
  assumes "\<forall>x\<in>set xs. x = 0 \<or> x = - 1" and "p \<in> set (diff xs)"
  shows "p \<noteq> Some 2 \<and> p \<noteq> Some (- 2)"
proof (cases xs)
  case Nil
  with assms(2) show ?thesis by simp
next
  case (Cons y ys)
  with assms(2) consider "p = None"
    | a b where "(a, b) \<in> set (zip (y # ys) ys)" "p = Some (b - a)"
    by auto
  then show ?thesis
  proof cases
    case 1
    then show ?thesis by simp
  next
    case 2
    from 2(1) have "a \<in> set (y # ys)" "b \<in> set ys"
      by (auto dest: set_zip_leftD set_zip_rightD)
    with assms(1) Cons have "a = 0 \<or> a = - 1" "b = 0 \<or> b = - 1" by auto
    with 2(2) show ?thesis by auto
  qed
qed

lemma generate_signals_position:
  assumes "r \<in> set (generate_signals df)"
  shows "Position r \<in> set (diff (map (\<lambda>r. signal_of (SMA_Short r) (SMA_Long r)) df))"
proof -
  let ?sig = "map (\<lambda>r. signal_of (SMA_Short r) (SMA_Long r)) df"
  from assms obtain q s p where
    mem: "(q, s, p) \<in> set (zip df (zip ?sig (diff ?sig)))"
    and r: "r = indicator_row.extend q (signal_row.fields s p)"
    by (auto simp: generate_signals_def Let_def)
  from mem have "(s, p) \<in> set (zip ?sig (diff ?sig))" by (rule set_zip_rightD)
  then have "p \<in> set (diff ?sig)" by (rule set_zip_rightD)
  with r show ?thesis by (simp add: indicator_row.defs signal_row.defs)
qed

lemma equal_windows_position:
  assumes "r \<in> set (generate_signals (calculate_moving_averages df w w))"
  shows "Position r \<noteq> Some 2 \<and> Position r \<noteq> Some (- 2)"
proof -
  let ?df = "calculate_moving_averages df w w"
  have "\<forall>x\<in>set (map (\<lambda>r. signal_of (SMA_Short r) (SMA_Long r)) ?df). x = 0 \<or> x = - 1"
    using cma_equal_windows [of _ df w] signal_of_same by auto
  from diff_small [OF this generate_signals_position [OF assms]] show ?thesis .
qed

lemma run_loop_no_cross:
  "\<forall>r\<in>set rows. Position r \<noteq> Some 2 \<and> Position r \<noteq> Some (- 2) \<Longrightarrow>
   \<exists>s'. run_loop s rows = Inr s' \<and> trades s' = trades s
        \<and> in_position s' = in_position s \<and> capital s' = capital s \<and> shares s' = shares s"
proof (induction rows arbitrary: s)
  case Nil
  then show ?case by simp
next
  case (Cons r rows)
  from Cons.prems have "Position r \<noteq> Some 2" "Position r \<noteq> Some (- 2)" by simp_all
  then have st: "step s r = Inr (s\<lparr>portfolio_values :=
                        portfolio_values s @ [(Date r, capital s + shares s * Close r)]\<rparr>)"
    by (rule step_other)
  from Cons.prems have "\<forall>r\<in>set rows. Position r \<noteq> Some 2 \<and> Position r \<noteq> Some (- 2)"
    by simp
  from Cons.IH [OF this, of "s\<lparr>portfolio_values :=
                        portfolio_values s @ [(Date r, capital s + shares s * Close r)]\<rparr>"]
  show ?case by (simp add: st)
qed

text \<open>
  Claim C9, as amended. With the short window equal to the long window, on every price
  series, no row has a Position of +2 or -2, the loop records no trade, and
  the pipeline either raises IndexError because no row survives \<open>dropna\<close> or returns a
  result without trades, out of position, whose final value is the initial capital.
\<close>

theorem equal_windows_no_trades:
  "(\<forall>r\<in>set (generate_signals (calculate_moving_averages df w w)).
       Position r \<noteq> Some 2 \<and> Position r \<noteq> Some (- 2))
   \<and> (\<exists>s. run_loop (init_state initial_cap)
             (dropna (generate_signals (calculate_moving_averages df w w))) = Inr s
          \<and> trades s = [])
   \<and> (backtest_core df w w initial_cap = Inl IndexError
        \<and> dropna (generate_signals (calculate_moving_averages df w w)) = []
      \<or> (\<exists>res. backtest_core df w w initial_cap = Inr res \<and> res_trades res = []
            \<and> \<not> res_in_position res \<and> final_value res = initial_cap))"
proof -
  let ?rows = "dropna (generate_signals (calculate_moving_averages df w w))"
  have a: "\<forall>r\<in>set (generate_signals (calculate_moving_averages df w w)).
       Position r \<noteq> Some 2 \<and> Position r \<noteq> Some (- 2)"
    using equal_windows_position by blast
  then have "\<forall>r\<in>set ?rows. Position r \<noteq> Some 2 \<and> Position r \<noteq> Some (- 2)"
    by (simp add: dropna_def)
  from run_loop_no_cross [OF this, of "init_state initial_cap"]
  obtain s where s: "run_loop (init_state initial_cap) ?rows = Inr s" "trades s = []"
    "\<not> in_position s" "capital s = initial_cap" "shares s = 0"
    by (auto simp: init_state_def)
  have c: "backtest_core df w w initial_cap = Inl IndexError \<and> ?rows = []
      \<or> (\<exists>res. backtest_core df w w initial_cap = Inr res \<and> res_trades res = []
            \<and> \<not> res_in_position res \<and> final_value res = initial_cap)"
    using s by (cases "?rows = []") (simp_all add: backtest_core_def simulate_trades_def Let_def)
  from a s c show ?thesis by blast
qed

theorem equal_windows_no_trades_witness:
  "list_all (\<lambda>r. Position r \<noteq> Some 2 \<and> Position r \<noteq> Some (- 2))
      (generate_signals (calculate_moving_averages sample_prices 2 2))
   \<and> backtest_core sample_prices 2 2 1000 =
       Inr \<lparr>res_trades = [], portfolio_df = [(1, 1000), (2, 1000), (3, 1000)],
          final_value = 1000, initial_capital = 1000, shares_held = 0,
          cash = 1000, res_in_position = False, unrealized_profit = 0,
          unrealized_pct = 0\<rparr>"
proof -
  have e: "backtest_core sample_prices 2 2 1000 =
       Inr \<lparr>res_trades = [], portfolio_df = [(1, 1000), (2, 1000), (3, 1000)],
          final_value = 1000, initial_capital = 1000, shares_held = 0,
          cash = 1000, res_in_position = False, unrealized_profit = 0,
          unrealized_pct = 0\<rparr>"
    by (simp add: backtest_core_def sample_prices_def calculate_moving_averages_def
        rolling_mean_def generate_signals_def signal_of_def gt_mask_def le_mask_def
        price_point.defs indicator_row.defs signal_row.defs upt_conv_Cons
        simulate_trades_def dropna_def notna_def init_state_def step_def Let_def)
  from equal_windows_no_trades [of sample_prices 2 1000] e show ?thesis
    unfolding list_all_iff by blast
qed

text \<open>
  Claim C9 as stated fails for a short window greater than the long one: the two
  averages only change roles. With windows 2 and 1 on the closes 10, 10, 9, 10 the
  pipeline buys 111 shares at 9 and sells them at 10.
\<close>

theorem reversed_windows_trade:
  "backtest_core sample_prices 2 1 1000 =
     Inr \<lparr>res_trades = [BUY 2 9 111, SELL 3 10 111 111 (100 / 9)],
          portfolio_df = [(1, 1000), (2, 1000), (3, 1111)],
          final_value = 1111, initial_capital = 1000, shares_held = 0,
          cash = 1111, res_in_position = False, unrealized_profit = 0,
          unrealized_pct = 0\<rparr>"
  by (simp add: backtest_core_def sample_prices_def calculate_moving_averages_def
        rolling_mean_def generate_signals_def signal_of_def gt_mask_def le_mask_def
        price_point.defs indicator_row.defs signal_row.defs upt_conv_Cons
        simulate_trades_def dropna_def notna_def init_state_def step_def Let_def)

end
